theory Spec2Isabelle
  imports Main
begin

section \<open>Go strings and the whitespace normalisation of query texts\<close>

text \<open>
  A Go string is read by \<^verbatim>\<open>regexp\<close> and by \<^verbatim>\<open>strings.TrimSpace\<close> rune by rune, so a
  query text is modelled as the list of its code points. Any number outside the sets
  named below (a letter, a digit, the replacement rune of an invalid byte) is an
  ordinary rune that neither function treats specially.
\<close>

type_synonym rune = nat
type_synonym gostring = "rune list"

definition of_string :: "string \<Rightarrow> gostring" where
  "of_string s = map of_char s"

text \<open>
  \<^verbatim>\<open>whitespaceRegexp = regexp.MustCompile(`([\s"]|\n|\t|\r)+`)\<close>.
  In Go's RE2 syntax the class \<^verbatim>\<open>\s\<close> is tab, newline, form feed, carriage return and
  space (not the vertical tab); the class of the pattern adds the double quote (34).
  The other three alternatives are the two-rune texts backslash (92) followed by
  \<^verbatim>\<open>n\<close>, \<^verbatim>\<open>t\<close> or \<^verbatim>\<open>r\<close>.
\<close>

definition regexp_space :: "rune \<Rightarrow> bool" where
  "regexp_space c = (c = 9 \<or> c = 10 \<or> c = 12 \<or> c = 13 \<or> c = 32)"

definition char_class :: "rune \<Rightarrow> bool" where
  "char_class c = (regexp_space c \<or> c = 34)"

definition escape_letter :: "rune \<Rightarrow> bool" where
  "escape_letter c = (c = 110 \<or> c = 116 \<or> c = 114)"

text \<open>
  One iteration of the group at the head of the input: the rest of the input after the
  alternative that matches, or \<open>None\<close>. At most one alternative can match at a position.
\<close>

fun alternative :: "gostring \<Rightarrow> gostring option" where
  "alternative [] = None"
| "alternative (c # cs) =
     (if char_class c then Some cs
      else if c = 92 then
        (case cs of [] \<Rightarrow> None
         | d # ds \<Rightarrow> if escape_letter d then Some ds else None)
      else None)"

lemma alternative_shorter: "alternative s = Some r \<Longrightarrow> length r < length s"
  by (cases s) (auto split: if_splits list.splits)

text \<open>The greedy \<^verbatim>\<open>+\<close>: further iterations as long as one matches.\<close>

function repetition :: "gostring \<Rightarrow> gostring" where
  "repetition s = (case alternative s of None \<Rightarrow> s | Some r \<Rightarrow> repetition r)"
  by pat_completeness auto
termination
  by (relation "measure length") (auto simp: alternative_shorter)

declare repetition.simps [simp del]

text \<open>A match of the whole pattern at the head of the input, and the input after it.\<close>

definition whitespaceRegexp :: "gostring \<Rightarrow> gostring option" where
  "whitespaceRegexp s = (case alternative s of None \<Rightarrow> None | Some r \<Rightarrow> Some (repetition r))"

lemma repetition_le: "length (repetition s) \<le> length s"
proof (induction s rule: repetition.induct)
  case (1 s)
  show ?case
  proof (cases "alternative s")
    case None
    then show ?thesis by (simp add: repetition.simps)
  next
    case (Some r)
    with "1" alternative_shorter [OF Some] show ?thesis
      by (simp add: repetition.simps)
  qed
qed

lemma whitespaceRegexp_shorter: "whitespaceRegexp s = Some r \<Longrightarrow> length r < length s"
  unfolding whitespaceRegexp_def
  using repetition_le alternative_shorter
  by (fastforce split: option.splits intro: le_less_trans)

text \<open>
  \<^verbatim>\<open>whitespaceRegexp.ReplaceAllString(src, repl)\<close>: the leftmost match is replaced, the
  scan goes on after it; a rune where no match starts is copied. The pattern matches no
  empty text, and the replacement used by the program holds no \<^verbatim>\<open>$\<close>.
\<close>

function ReplaceAllString :: "gostring \<Rightarrow> gostring \<Rightarrow> gostring" where
  "ReplaceAllString [] repl = []"
| "ReplaceAllString (c # cs) repl =
     (case whitespaceRegexp (c # cs) of
        Some rest \<Rightarrow> repl @ ReplaceAllString rest repl
      | None \<Rightarrow> c # ReplaceAllString cs repl)"
  by pat_completeness auto
termination
  by (relation "measure (\<lambda>(s, repl). length s)") (auto dest: whitespaceRegexp_shorter)

text \<open>
  \<^verbatim>\<open>unicode.IsSpace\<close>: in Latin-1 the runes tab, newline, vertical tab, form feed,
  carriage return, space, U+0085 and U+00A0; beyond it the White_Space property.
  \<^verbatim>\<open>strings.TrimSpace\<close> removes such runes from both ends.
\<close>

definition IsSpace :: "rune \<Rightarrow> bool" where
  "IsSpace c = (c = 9 \<or> c = 10 \<or> c = 11 \<or> c = 12 \<or> c = 13 \<or> c = 32 \<or> c = 133 \<or> c = 160
     \<or> c = 5760 \<or> (8192 \<le> c \<and> c \<le> 8202) \<or> c = 8232 \<or> c = 8233 \<or> c = 8239
     \<or> c = 8287 \<or> c = 12288)"

definition TrimSpace :: "gostring \<Rightarrow> gostring" where
  "TrimSpace s = rev (dropWhile IsSpace (rev (dropWhile IsSpace s)))"

text \<open>
  Line 212 of \<^verbatim>\<open>safesql.go\<close>:
  \<^verbatim>\<open>clean := strings.TrimSpace(whitespaceRegexp.ReplaceAllString(query, " "))\<close>.
\<close>

definition clean :: "gostring \<Rightarrow> gostring" where
  "clean query = TrimSpace (ReplaceAllString query [32])"

section \<open>Type metadata of the sink library (package go/types)\<close>

text \<open>
  The program reads the type checker's objects through their methods only. An object of
  the model carries what those methods return: \<^verbatim>\<open>Name()\<close>, \<^verbatim>\<open>Exported()\<close>,
  \<^verbatim>\<open>Type()\<close>, and for a signature its parameters.
\<close>

datatype gotype = BasicT string | NamedT string | CompositeT string

text \<open>\<^verbatim>\<open>var stringType types.Type = types.Typ[types.String]\<close>\<close>

definition stringType :: gotype where
  "stringType = BasicT ''string''"

record var =
  var_Name :: string
  var_Type :: gotype

text \<open>A \<^verbatim>\<open>*types.Signature\<close> is read through \<^verbatim>\<open>Params()\<close> only.\<close>

type_synonym signature = "var list"

record func =
  func_FullName :: string
  func_Exported :: bool
  func_Type :: signature

text \<open>
  \<^verbatim>\<open>o.Type()\<close> of a type name is a \<^verbatim>\<open>*types.Named\<close> with its declared methods, or another
  type (an alias of an unnamed type), on which the assertion of line 127 panics.
\<close>

datatype decl_type = Named "func list" | NotNamed

datatype object =
    TypeName (obj_Exported: bool) (obj_Type: decl_type)
  | NonType (obj_Exported: bool)

text \<open>
  The package scope is the list of its objects in the order of \<^verbatim>\<open>scope.Names()\<close>.
\<close>

type_synonym scope = "object list"

section \<open>The SSA program and the call graph\<close>

text \<open>
  A \<^verbatim>\<open>*ssa.Function\<close> is a pointer and is compared as one: the model keeps the address
  only (\<^verbatim>\<open>nil\<close> is one more address). The name of the function is not part of it.
\<close>

type_synonym fn_ptr = nat

datatype member = Function signature | OtherMember

record ssa_package =
  pkg_Path :: string
  Members :: "(string \<times> member) list"

text \<open>\<^verbatim>\<open>func (p *Package) Func(name string) *Function\<close>; \<open>None\<close> is \<^verbatim>\<open>nil\<close>.\<close>

definition Func_of :: "ssa_package \<Rightarrow> string \<Rightarrow> signature option" where
  "Func_of p name =
     (case map_of (Members p) name of
        Some (Function sg) \<Rightarrow> Some sg
      | Some OtherMember \<Rightarrow> None
      | None \<Rightarrow> None)"

record ssa_program =
  Package :: "string \<Rightarrow> ssa_package option"
  FuncValue :: "func \<Rightarrow> fn_ptr"

record package_info =
  Pkg :: string

record loader_program =
  InitialPackages :: "package_info list"

text \<open>
  An \<^verbatim>\<open>ssa.Value\<close> passed as an argument: a \<^verbatim>\<open>*ssa.Const\<close>, given by the text that
  \<^verbatim>\<open>v.Value.ExactString()\<close> returns, or any other value.
\<close>

datatype ssa_value = Const gostring | NonConst string

record call_instruction =
  Pos :: nat
  Parent :: fn_ptr
  Args :: "ssa_value list"

text \<open>
  \<^verbatim>\<open>callgraph.Edge\<close>: the call site may be \<^verbatim>\<open>nil\<close> on an edge that no instruction
  stands for. \<^verbatim>\<open>callgraph.Node\<close>: only the incoming edges are read.
\<close>

record edge =
  Site :: "call_instruction option"

record node =
  In :: "edge list"

type_synonym callgraph = "fn_ptr \<Rightarrow> node option"

text \<open>
  \<^verbatim>\<open>func (g *Graph) CreateNode(fn *ssa.Function) *Node\<close> returns the node of the function
  and adds a node without edges when the graph has none.
\<close>

definition CreateNode :: "callgraph \<Rightarrow> fn_ptr \<Rightarrow> node \<times> callgraph" where
  "CreateNode cg fn =
     (case cg fn of
        Some n \<Rightarrow> (n, cg)
      | None \<Rightarrow> (\<lparr>In = []\<rparr>, cg(fn \<mapsto> \<lparr>In = []\<rparr>)))"

section \<open>The analyser (safesql.go)\<close>

text \<open>The run-time panics of the Go code are values of the model.\<close>

datatype panic =
    TypeAssertion
  | NilDereference
  | SliceBounds
  | ArgCountMismatch
  | IndexOutOfRange

record QueryMethod =
  Func :: func
  SSA :: fn_ptr
  ArgCount :: int
  Param :: int

subsection \<open>FuncHasQuery (lines 151-160)\<close>

text \<open>The loop \<^verbatim>\<open>for i := 0; i < params.Len(); i++\<close>, from index \<open>i\<close> on.\<close>

function FuncHasQuery_loop :: "signature \<Rightarrow> nat \<Rightarrow> int \<times> bool" where
  "FuncHasQuery_loop params i =
     (if i < length params then
        (let v = params ! i in
         if var_Name v = ''query'' \<and> var_Type v = stringType then (int i, True)
         else FuncHasQuery_loop params (i + 1))
      else (0, False))"
  by pat_completeness auto
termination
  by (relation "measure (\<lambda>(params, i). length params - i)") auto

declare FuncHasQuery_loop.simps [simp del]

definition FuncHasQuery :: "signature \<Rightarrow> int \<times> bool" where
  "FuncHasQuery s = FuncHasQuery_loop s 0"

subsection \<open>FindQueryMethods (lines 116-145)\<close>

text \<open>The loop over the methods of one named type (lines 128-142).\<close>

fun methods_loop :: "ssa_program \<Rightarrow> func list \<Rightarrow> QueryMethod list \<Rightarrow> QueryMethod list" where
  "methods_loop ssa [] methods = methods"
| "methods_loop ssa (m # ms) methods =
     (if \<not> func_Exported m then methods_loop ssa ms methods
      else
        (case FuncHasQuery (func_Type m) of
           (num, ok) \<Rightarrow>
             if ok then
               methods_loop ssa ms
                 (methods @ [\<lparr>Func = m, SSA = FuncValue ssa m,
                              ArgCount = int (length (func_Type m)), Param = num\<rparr>])
             else methods_loop ssa ms methods))"

text \<open>The loop over the names of the scope (lines 119-143).\<close>

fun names_loop :: "ssa_program \<Rightarrow> scope \<Rightarrow> QueryMethod list \<Rightarrow> panic + QueryMethod list" where
  "names_loop ssa [] methods = Inr methods"
| "names_loop ssa (ob # obs) methods =
     (if \<not> obj_Exported ob then names_loop ssa obs methods
      else
        (case ob of
           NonType _ \<Rightarrow> names_loop ssa obs methods
         | TypeName _ t \<Rightarrow>
             (case t of
                NotNamed \<Rightarrow> Inl TypeAssertion
              | Named ms \<Rightarrow> names_loop ssa obs (methods_loop ssa ms methods))))"

definition FindQueryMethods :: "scope \<Rightarrow> ssa_program \<Rightarrow> panic + QueryMethod list" where
  "FindQueryMethods sql ssa = names_loop ssa sql []"

subsection \<open>FindMains (lines 164-174)\<close>

fun mains_loop :: "ssa_program \<Rightarrow> package_info list \<Rightarrow> ssa_package list \<Rightarrow> panic + ssa_package list" where
  "mains_loop s [] mains = Inr mains"
| "mains_loop s (info # ips) mains =
     (case Package s (Pkg info) of
        None \<Rightarrow> Inl NilDereference
      | Some ssaPkg \<Rightarrow>
          if Func_of ssaPkg ''main'' \<noteq> None then mains_loop s ips (mains @ [ssaPkg])
          else mains_loop s ips mains)"

definition FindMains :: "loader_program \<Rightarrow> ssa_program \<Rightarrow> panic + ssa_package list" where
  "FindMains p s = mains_loop s (InitialPackages p) []"

subsection \<open>FindNonConstCalls (lines 178-219)\<close>

text \<open>
  The two results are accumulated in the order of the return statement:
  \<open>bad\<close> (the call sites) and \<open>queries\<close> (the cleaned constant texts).
\<close>

type_synonym verdict = "call_instruction list \<times> gostring list"

text \<open>Lines 186-189: the set of the functions already tracked.\<close>

fun okFuncs_loop :: "QueryMethod list \<Rightarrow> fn_ptr set \<Rightarrow> fn_ptr set" where
  "okFuncs_loop [] okFuncs = okFuncs"
| "okFuncs_loop (m # ms) okFuncs = okFuncs_loop ms (insert (SSA m) okFuncs)"

text \<open>
  Lines 200-206: the receiver, when it is among the arguments, is dropped. The lengths
  are compared as Go \<^verbatim>\<open>int\<close>s; a slice is shorter than \<open>2 ^ 63\<close>, so the sum wraps on no
  comparison that can succeed. \<^verbatim>\<open>args[1:]\<close> panics on an empty slice.
\<close>

definition receiver_adjust :: "QueryMethod \<Rightarrow> ssa_value list \<Rightarrow> panic + ssa_value list" where
  "receiver_adjust m args =
     (if int (length args) = ArgCount m + 1 then
        (case args of [] \<Rightarrow> Inl SliceBounds | _ # rest \<Rightarrow> Inr rest)
      else if int (length args) \<noteq> ArgCount m then Inl ArgCountMismatch
      else Inr args)"

text \<open>Lines 207-214: the argument at \<^verbatim>\<open>m.Param\<close> is a constant or it is not.\<close>

definition classify :: "QueryMethod \<Rightarrow> call_instruction \<Rightarrow> ssa_value list \<Rightarrow> verdict \<Rightarrow> panic + verdict" where
  "classify m site args acc =
     (if 0 \<le> Param m \<and> Param m < int (length args) then
        (case args ! nat (Param m) of
           NonConst _ \<Rightarrow> Inr (fst acc @ [site], snd acc)
         | Const query \<Rightarrow> Inr (fst acc, snd acc @ [clean query]))
      else Inl IndexOutOfRange)"

text \<open>Lines 196-214: the body of the loop over the incoming edges.\<close>

definition edge_step :: "fn_ptr set \<Rightarrow> QueryMethod \<Rightarrow> edge \<Rightarrow> verdict \<Rightarrow> panic + verdict" where
  "edge_step okFuncs m e acc =
     (case Site e of
        None \<Rightarrow> Inl NilDereference
      | Some site \<Rightarrow>
          if Parent site \<in> okFuncs then Inr acc
          else
            (case receiver_adjust m (Args site) of
               Inl p \<Rightarrow> Inl p
             | Inr args \<Rightarrow> classify m site args acc))"

fun edges_loop :: "fn_ptr set \<Rightarrow> QueryMethod \<Rightarrow> edge list \<Rightarrow> verdict \<Rightarrow> panic + verdict" where
  "edges_loop okFuncs m [] acc = Inr acc"
| "edges_loop okFuncs m (e # es) acc =
     (case edge_step okFuncs m e acc of
        Inl p \<Rightarrow> Inl p
      | Inr acc' \<Rightarrow> edges_loop okFuncs m es acc')"

text \<open>Lines 193-216: the loop over the catalogue; the graph is passed on.\<close>

fun sinks_loop :: "fn_ptr set \<Rightarrow> callgraph \<Rightarrow> QueryMethod list \<Rightarrow> verdict \<Rightarrow> panic + verdict" where
  "sinks_loop okFuncs cg [] acc = Inr acc"
| "sinks_loop okFuncs cg (m # ms) acc =
     (case CreateNode cg (SSA m) of
        (node, cg') \<Rightarrow>
          (case edges_loop okFuncs m (In node) acc of
             Inl p \<Rightarrow> Inl p
           | Inr acc' \<Rightarrow> sinks_loop okFuncs cg' ms acc'))"

text \<open>
  \<^verbatim>\<open>cg.DeleteSyntheticNodes()\<close> belongs to package callgraph; the analyser is given
  the graph that call leaves, as the function \<open>DeleteSyntheticNodes\<close>.
\<close>

definition FindNonConstCalls ::
  "(callgraph \<Rightarrow> callgraph) \<Rightarrow> callgraph \<Rightarrow> QueryMethod list \<Rightarrow> panic + verdict" where
  "FindNonConstCalls DeleteSyntheticNodes cg qms =
     (let cg1 = DeleteSyntheticNodes cg;
          okFuncs = okFuncs_loop qms {}
      in sinks_loop okFuncs cg1 qms ([], []))"

section \<open>Properties of the normalisation\<close>

fun isolated :: "gostring \<Rightarrow> bool" where
  "isolated [] = True"
| "isolated (c # cs) =
     ((if c = 32 then alternative cs = None else alternative (c # cs) = None) \<and> isolated cs)"

lemma alternative_space: "alternative (32 # cs) = Some cs"
  by (simp add: char_class_def regexp_space_def)

lemma repetition_None: "alternative s = None \<Longrightarrow> repetition s = s"
  by (simp add: repetition.simps)

lemma repetition_stops: "alternative (repetition s) = None"
proof (induction s rule: repetition.induct)
  case (1 s)
  then show ?case
    by (cases "alternative s") (simp_all add: repetition.simps)
qed

lemma isolated_fixed: "isolated s \<Longrightarrow> ReplaceAllString s [32] = s"
proof (induction s "[32::nat]" rule: ReplaceAllString.induct)
  case 1
  then show ?case by simp
next
  case (2 c cs)
  show ?case
  proof (cases "c = 32")
    case True
    with "2.prems" have n: "alternative cs = None" and i: "isolated cs" by simp_all
    have w: "whitespaceRegexp (c # cs) = Some cs"
      using n unfolding True whitespaceRegexp_def alternative_space
      by (simp add: repetition_None)
    from "2.hyps"(2) [OF w i] w True show ?thesis by simp
  next
    case False
    with "2.prems" have n: "alternative (c # cs) = None" and i: "isolated cs" by simp_all
    have w: "whitespaceRegexp (c # cs) = None"
      using n by (simp add: whitespaceRegexp_def)
    from "2.hyps"(1) [OF w i] w show ?thesis by simp
  qed
qed

lemma alternative_ReplaceAllString:
  "alternative s = None \<Longrightarrow> alternative (ReplaceAllString s [32]) = None"
proof (cases s)
  case Nil
  then show ?thesis by simp
next
  case (Cons c cs)
  assume n: "alternative s = None"
  then have w: "whitespaceRegexp (c # cs) = None"
    using Cons by (simp add: whitespaceRegexp_def)
  show ?thesis
  proof (cases cs)
    case Nil
    with n \<open>s = c # cs\<close> w show ?thesis by (auto split: if_splits)
  next
    case (Cons d ds)
    from n \<open>s = c # cs\<close> Cons have nc: "\<not> char_class c" and ne: "c = 92 \<longrightarrow> \<not> escape_letter d"
      by (auto split: if_splits)
    have "\<exists>e es. ReplaceAllString (d # ds) [32] = e # es \<and> (e = 32 \<or> e = d)"
      by (cases "whitespaceRegexp (d # ds)") simp_all
    then obtain e es where r: "ReplaceAllString (d # ds) [32] = e # es" and e: "e = 32 \<or> e = d"
      by blast
    have "c = 92 \<longrightarrow> \<not> escape_letter e"
      using e ne by (auto simp: escape_letter_def)
    with nc r w \<open>s = c # cs\<close> Cons show ?thesis by simp
  qed
qed

lemma isolated_ReplaceAllString: "isolated (ReplaceAllString s [32])"
proof (induction s "[32::nat]" rule: ReplaceAllString.induct)
  case 1
  then show ?case by simp
next
  case (2 c cs)
  show ?case
  proof (cases "whitespaceRegexp (c # cs)")
    case None
    then have n: "alternative (c # cs) = None"
      by (simp add: whitespaceRegexp_def del: alternative.simps split: option.splits)
    have c32: "c \<noteq> 32"
    proof
      assume "c = 32"
      with n alternative_space [of cs] show False by simp
    qed
    have "alternative (ReplaceAllString (c # cs) [32]) = None"
      using n by (rule alternative_ReplaceAllString)
    with "2.hyps"(1) [OF None] None c32 show ?thesis by simp
  next
    case (Some rest)
    then have "alternative rest = None"
      by (auto simp: whitespaceRegexp_def repetition_stops split: option.splits)
    then have "alternative (ReplaceAllString rest [32]) = None"
      by (rule alternative_ReplaceAllString)
    with "2.hyps"(2) [OF Some] Some show ?thesis by simp
  qed
qed

lemma isolated_tl: "isolated (c # cs) \<Longrightarrow> isolated cs"
  by simp

lemma isolated_dropWhile: "isolated s \<Longrightarrow> isolated (dropWhile P s)"
proof (induction s)
  case Nil
  then show ?case by simp
next
  case (Cons c cs)
  from Cons.prems have "isolated cs" by (rule isolated_tl)
  with Cons.IH Cons.prems show ?case
    by (cases "P c") (simp_all del: isolated.simps)
qed

lemma alternative_prefix: "alternative (xs @ ys) = None \<Longrightarrow> alternative xs = None"
  by (cases xs) (auto split: if_splits list.splits)

lemma isolated_prefix: "isolated (xs @ ys) \<Longrightarrow> isolated xs"
proof (induction xs)
  case Nil
  then show ?case by simp
next
  case (Cons c cs)
  then show ?case
    using alternative_prefix [of cs ys] alternative_prefix [of "c # cs" ys]
    by (auto split: if_splits)
qed

lemma isolated_butlast_run: "isolated s \<Longrightarrow> isolated (rev (dropWhile P (rev s)))"
proof -
  assume i: "isolated s"
  have "s = rev (dropWhile P (rev s)) @ rev (takeWhile P (rev s))"
    by (metis rev_append rev_rev_ident takeWhile_dropWhile_id)
  with i isolated_prefix show ?thesis by metis
qed

lemma isolated_TrimSpace: "isolated s \<Longrightarrow> isolated (TrimSpace s)"
  unfolding TrimSpace_def by (intro isolated_butlast_run isolated_dropWhile)

lemma TrimSpace_idem: "TrimSpace (TrimSpace s) = TrimSpace s"
proof -
  define t where "t = dropWhile IsSpace s"
  define u where "u = rev (dropWhile IsSpace (rev t))"
  have t: "t = u @ rev (takeWhile IsSpace (rev t))"
    unfolding u_def by (metis rev_append rev_rev_ident takeWhile_dropWhile_id)
  have front: "dropWhile IsSpace u = u"
  proof (cases u)
    case Nil
    then show ?thesis by simp
  next
    case (Cons a as)
    with t have "hd t = a" and "t \<noteq> []" by (metis append_Cons list.sel(1), metis Nil_is_append_conv list.distinct(1))
    then have "\<not> IsSpace a"
      unfolding t_def by (metis hd_dropWhile)
    with Cons show ?thesis by simp
  qed
  have rear: "dropWhile IsSpace (rev u) = rev u"
    unfolding u_def by (simp add: dropWhile_idem)
  show ?thesis
    using front rear unfolding TrimSpace_def t_def [symmetric] u_def [symmetric] by simp
qed

lemma clean_idem: "clean (clean s) = clean s"
proof -
  have "isolated (TrimSpace (ReplaceAllString s [32]))"
    by (intro isolated_TrimSpace isolated_ReplaceAllString)
  then show ?thesis
    unfolding clean_def by (simp add: isolated_fixed TrimSpace_idem)
qed

text \<open>
  C7. Cleaning a query text is idempotent: for every text, cleaning the cleaned text
  gives the cleaned text again. In particular the text
  \<^verbatim>\<open>"SELECT  *\n  FROM t"\<close> (with its quotes and the escaped newline, as
  \<^verbatim>\<open>ExactString\<close> writes it) is cleaned to \<^verbatim>\<open>SELECT * FROM t\<close>.
\<close>

theorem clean_idempotent:
  "clean (clean s) = clean s \<and>
   clean (of_string ([CHR 0x22] @ ''SELECT  *'' @ [CHR 0x5C] @ ''n  FROM t'' @ [CHR 0x22]))
     = of_string ''SELECT * FROM t''"
proof
  show "clean (clean s) = clean s" by (rule clean_idem)
  show "clean (of_string ([CHR 0x22] @ ''SELECT  *'' @ [CHR 0x5C] @ ''n  FROM t'' @ [CHR 0x22]))
     = of_string ''SELECT * FROM t''"
    by code_simp
qed

theorem clean_idempotent_witness:
  "clean (clean (of_string ''a  b '')) = of_string ''a b''"
proof -
  have "clean (of_string ''a  b '') = of_string ''a b''" by code_simp
  with clean_idempotent [of "of_string ''a  b ''"] show ?thesis by simp
qed

end
